theory Spec2Isabelle
  imports Complex_Main
begin

section \<open>Numbers\<close>

text \<open>
  The storefront is TypeScript; every quantity, threshold and price is a JavaScript
  \<^verbatim>\<open>number\<close>. The model reads a number as an exact rational: comparison, addition,
  multiplication, \<^verbatim>\<open>Math.min\<close> and \<^verbatim>\<open>Math.max\<close> are the ones of \<^typ>\<open>rat\<close>. Rounding
  of doubles and the values NaN and Infinity are outside the model. The one operation of
  the code that can leave the finite numbers, the division in \<^verbatim>\<open>getDiscountPercent\<close>,
  is written as a partial operation: \<open>None\<close> stands for the non-finite quotient of a
  division by zero.
\<close>

type_synonym number = rat

definition js_divide :: "number \<Rightarrow> number \<Rightarrow> number option" where
  "js_divide a b = (if b = 0 then None else Some (a / b))"

section \<open>Pricing engine (src/data/pricing.ts)\<close>

subsection \<open>Data\<close>

text \<open>
  Modelled from the spec: the declarations of \<^verbatim>\<open>Product\<close> and \<^verbatim>\<open>PriceBreak\<close>
  (\<^verbatim>\<open>types/Product\<close>) are imported by the pricing module and are not among the source
  files. The fields are the ones the data model lists: a price break has \<^verbatim>\<open>minQty\<close>,
  \<^verbatim>\<open>price\<close> and an optional display-only \<^verbatim>\<open>discount\<close>; a product has an identifier,
  a SKU, a name, \<^verbatim>\<open>basePrice\<close>, \<^verbatim>\<open>stock\<close> and optional \<^verbatim>\<open>priceBreaks\<close>. The pricing
  functions read \<^verbatim>\<open>basePrice\<close>, \<^verbatim>\<open>priceBreaks\<close>, \<^verbatim>\<open>minQty\<close> and \<^verbatim>\<open>price\<close> only.
\<close>

record price_break =
  minQty :: number
  price :: number
  discount :: "number option"

record product =
  prod_id :: int
  prod_sku :: string
  prod_name :: string
  basePrice :: number
  stock :: number
  priceBreaks :: "price_break list option"

record pricing_result =
  unitPrice :: number
  netSubtotal :: number
  discountPercent :: "number option"

subsection \<open>Operations\<close>

text \<open>\<^verbatim>\<open>product.priceBreaks ?? []\<close>\<close>

definition breaksOrEmpty :: "product \<Rightarrow> price_break list" where
  "breaksOrEmpty p = (case priceBreaks p of None \<Rightarrow> [] | Some bs \<Rightarrow> bs)"

text \<open>
  \<^verbatim>\<open>(product.priceBreaks ?? []).slice().sort((a, b) => a.minQty - b.minQty)\<close>:
  a copy, sorted ascending by \<^verbatim>\<open>minQty\<close>. The sort of the language is stable, and so is
  \<^const>\<open>sort_key\<close>.
\<close>

definition sortBreaks :: "product \<Rightarrow> price_break list" where
  "sortBreaks p = sort_key minQty (breaksOrEmpty p)"

text \<open>
  The callback of \<^verbatim>\<open>eligible.reduce(..., null)\<close>: the accumulator is \<^verbatim>\<open>null\<close> before
  the first element and a price break afterwards.
\<close>

definition pickBest :: "price_break option \<Rightarrow> price_break \<Rightarrow> price_break option" where
  "pickBest best cur =
     (case best of
        None \<Rightarrow> Some cur
      | Some b \<Rightarrow>
          if price cur < price b then Some cur
          else if price cur = price b \<and> minQty cur > minQty b then Some cur
          else Some b)"

definition getBestBreakForQty :: "product \<Rightarrow> number \<Rightarrow> price_break option" where
  "getBestBreakForQty p q =
     (let sorted = sortBreaks p in
      if sorted = [] then None
      else
        let eligible = filter (\<lambda>b. q \<ge> minQty b) sorted in
        if eligible = [] then None
        else foldl pickBest None eligible)"

definition getUnitPriceForQty :: "product \<Rightarrow> number \<Rightarrow> number" where
  "getUnitPriceForQty p q =
     (case getBestBreakForQty p q of
        Some best \<Rightarrow> min (price best) (basePrice p)
      | None \<Rightarrow> basePrice p)"

definition getDiscountPercent :: "product \<Rightarrow> number \<Rightarrow> number option" where
  "getDiscountPercent p q =
     (let base = basePrice p * q in
      if base \<le> 0 then Some 0
      else
        let unit = getUnitPriceForQty p q;
            discounted = unit * q
        in map_option (\<lambda>r. r * 100) (js_divide (base - discounted) base))"

definition computePricing :: "product \<Rightarrow> number \<Rightarrow> pricing_result" where
  "computePricing p q =
     (let unitPrice' = getUnitPriceForQty p q;
          netSubtotal' = unitPrice' * q;
          discountPercent' = getDiscountPercent p q
      in \<lparr>unitPrice = unitPrice', netSubtotal = netSubtotal',
          discountPercent = discountPercent'\<rparr>)"

section \<open>Strings of numbers\<close>

text \<open>
  \<^verbatim>\<open>String(n)\<close> for an integer \<open>n\<close>: its decimal digits, with a leading minus sign for
  a negative one.
\<close>

definition digitChar :: "nat \<Rightarrow> char" where
  "digitChar n = char_of (48 + n)"

fun decimal :: "nat \<Rightarrow> string" where
  "decimal n = (if n < 10 then [digitChar n] else decimal (n div 10) @ [digitChar (n mod 10)])"

declare decimal.simps [simp del]

definition String_of_int :: "int \<Rightarrow> string" where
  "String_of_int i = (if i < 0 then CHR ''-'' # decimal (nat (- i)) else decimal (nat i))"

section \<open>Cart store (data/cart)\<close>

subsection \<open>Data\<close>

text \<open>
  \<^verbatim>\<open>ProductId = string | number\<close>; a numeric identifier is taken to be an integer.
  The fields \<^verbatim>\<open>id\<close>, \<^verbatim>\<open>name\<close>, \<^verbatim>\<open>price\<close>, \<^verbatim>\<open>image\<close> and \<^verbatim>\<open>size\<close> of \<^verbatim>\<open>CartItem\<close> are
  \<open>item_id\<close>, \<open>item_name\<close>, \<open>item_price\<close>, \<open>item_image\<close> and \<open>item_size\<close> here; an
  optional field is an \<open>option\<close>, \<open>None\<close> for \<^verbatim>\<open>undefined\<close>.
\<close>

datatype product_id = IdStr string | IdNum int

record cart_item =
  item_id :: product_id
  qty :: number
  item_name :: string
  item_price :: number
  item_image :: "string option"
  sku :: string
  color :: "string option"
  item_size :: "string option"

record cart =
  items :: "cart_item list"
  totalQty :: number
  totalPrice :: number

record cart_state =
  cart :: cart
  loading :: bool
  error :: "string option"

text \<open>
  The \<^verbatim>\<open>options?: Partial<CartItem>\<close> of \<^verbatim>\<open>setQty\<close> and \<^verbatim>\<open>removeFromCart\<close>: the code
  reads its \<^verbatim>\<open>sku\<close>, \<^verbatim>\<open>color\<close> and \<^verbatim>\<open>size\<close>, each of which may be absent.
\<close>

record key_options =
  opt_sku :: "string option"
  opt_color :: "string option"
  opt_size :: "string option"

subsection \<open>Browser storage\<close>

text \<open>
  The store keeps one record under the key \<^verbatim>\<open>"cart"\<close> of \<^verbatim>\<open>localStorage\<close>. What
  \<^verbatim>\<open>safeGet\<close> can see of it is modelled by the outcome of each step it takes:
  \<^item> \<open>item\<close> is what \<^verbatim>\<open>localStorage.getItem(KEY)\<close> returns: \<^verbatim>\<open>null\<close>, the empty string,
    or a non-empty string;
  \<^item> \<open>content\<close> is what \<^verbatim>\<open>JSON.parse\<close> does with a non-empty string: it throws, or
    it returns a value;
  \<^item> \<open>parsed\<close> is that value as far as the code inspects it: falsy (\<^verbatim>\<open>null\<close>, \<^verbatim>\<open>false\<close>,
    \<^verbatim>\<open>0\<close>, \<^verbatim>\<open>""\<close>), truthy with no (or a falsy) \<^verbatim>\<open>cart\<close> property, or an object whose
    \<^verbatim>\<open>cart\<close> property is a cart.
  A truthy \<^verbatim>\<open>cart\<close> property that is not of the shape of \<^verbatim>\<open>Cart\<close> is returned by the
  code unchecked, typed as a \<^verbatim>\<open>Cart\<close>; the typed model has no such value.
  \<open>NoWindow\<close> is the environment without a browser (\<^verbatim>\<open>typeof window === "undefined"\<close>).
\<close>

datatype parsed = Falsy | NoCartField | WithCart cart

datatype content = Unparsable | Parsable parsed

datatype item = Null | EmptyString | Str content

datatype env = NoWindow | Window item

datatype exn = SyntaxError

definition JSON_parse :: "content \<Rightarrow> exn + parsed" where
  "JSON_parse c = (case c of Unparsable \<Rightarrow> Inl SyntaxError | Parsable v \<Rightarrow> Inr v)"

subsection \<open>Operations\<close>

definition recalc :: "cart_item list \<Rightarrow> cart" where
  "recalc its =
     (let totalQty' = foldl (\<lambda>sum it. sum + qty it) 0 its;
          totalPrice' = foldl (\<lambda>sum it. sum + item_price it * qty it) 0 its
      in \<lparr>items = its, totalQty = totalQty', totalPrice = totalPrice'\<rparr>)"

definition emptyState :: cart_state where
  "emptyState = \<lparr>cart = recalc [], loading = False, error = None\<rparr>"

text \<open>The body of the \<^verbatim>\<open>try\<close> block of \<^verbatim>\<open>safeGet\<close>: it returns a state or throws.\<close>

definition safeGet_try :: "item \<Rightarrow> exn + cart_state" where
  "safeGet_try data =
     (case data of
        Null \<Rightarrow> Inr emptyState
      | EmptyString \<Rightarrow> Inr emptyState
      | Str c \<Rightarrow>
          (case JSON_parse c of
             Inl e \<Rightarrow> Inl e
           | Inr Falsy \<Rightarrow> Inr emptyState
           | Inr NoCartField \<Rightarrow> Inr emptyState
           | Inr (WithCart c') \<Rightarrow> Inr \<lparr>cart = c', loading = False, error = None\<rparr>))"

definition safeGet :: "env \<Rightarrow> cart_state" where
  "safeGet e =
     (case e of
        NoWindow \<Rightarrow> emptyState
      | Window data \<Rightarrow>
          (case safeGet_try data of
             Inr st \<Rightarrow> st
           | Inl _ \<Rightarrow> emptyState))"

text \<open>
  \<^verbatim>\<open>localStorage.setItem(KEY, JSON.stringify(state))\<close>: the stored text parses back to
  an object whose \<^verbatim>\<open>cart\<close> property is the cart of the state (the write is taken to
  succeed). The \<^verbatim>\<open>cart:updated\<close> event that follows changes no state of the store.
\<close>

definition safeSet :: "cart_state \<Rightarrow> env \<Rightarrow> env" where
  "safeSet st e =
     (case e of
        NoWindow \<Rightarrow> NoWindow
      | Window _ \<Rightarrow> Window (Str (Parsable (WithCart (cart st)))))"

definition String_of_id :: "product_id \<Rightarrow> string" where
  "String_of_id i = (case i of IdStr s \<Rightarrow> s | IdNum n \<Rightarrow> String_of_int n)"

definition sameKey :: "cart_item \<Rightarrow> cart_item \<Rightarrow> bool" where
  "sameKey a b \<longleftrightarrow>
     String_of_id (item_id a) = String_of_id (item_id b) \<and> sku a = sku b
     \<and> color a = color b \<and> item_size a = item_size b"

text \<open>\<^verbatim>\<open>Array.prototype.findIndex\<close>: the first index that satisfies the test, or \<open>-1\<close>.\<close>

fun findIndex :: "('a \<Rightarrow> bool) \<Rightarrow> 'a list \<Rightarrow> int" where
  "findIndex P [] = - 1"
| "findIndex P (x # xs) =
     (if P x then 0 else (let r = findIndex P xs in if r < 0 then - 1 else r + 1))"

definition getCart :: "env \<Rightarrow> cart_state" where
  "getCart e = safeGet e"

text \<open>
  Each mutating operation returns the new state together with the environment after
  \<^verbatim>\<open>safeSet\<close>. In \<^verbatim>\<open>addToCart\<close>, \<^verbatim>\<open>item.qty || 1\<close> replaces a quantity of zero by one.
\<close>

definition addToCart :: "cart_item \<Rightarrow> env \<Rightarrow> cart_state \<times> env" where
  "addToCart new e =
     (let state = safeGet e;
          its = items (cart state);
          idx = findIndex (\<lambda>it. sameKey it new) its;
          its' =
            (if idx \<ge> 0
             then its[nat idx := (its ! nat idx)\<lparr>qty := qty (its ! nat idx) + qty new\<rparr>]
             else its @ [new\<lparr>qty := (if qty new = 0 then 1 else qty new)\<rparr>]);
          newCart = recalc its';
          newState = \<lparr>cart = newCart, loading = False, error = None\<rparr>
      in (newState, safeSet newState e))"

text \<open>
  The test shared by \<^verbatim>\<open>setQty\<close> and \<^verbatim>\<open>removeFromCart\<close>:
  \<^verbatim>\<open>String(it.id) === String(id) && (!options || (it.sku === options.sku && ...))\<close>.
\<close>

definition matchesLine :: "product_id \<Rightarrow> key_options option \<Rightarrow> cart_item \<Rightarrow> bool" where
  "matchesLine i options it \<longleftrightarrow>
     String_of_id (item_id it) = String_of_id i
     \<and> (case options of
          None \<Rightarrow> True
        | Some opts \<Rightarrow>
            Some (sku it) = opt_sku opts \<and> color it = opt_color opts
            \<and> item_size it = opt_size opts)"

definition setQty :: "product_id \<Rightarrow> number \<Rightarrow> key_options option \<Rightarrow> env \<Rightarrow> cart_state \<times> env" where
  "setQty i q options e =
     (let state = safeGet e;
          its = map (\<lambda>it. if matchesLine i options it then it\<lparr>qty := max 1 q\<rparr> else it)
                  (items (cart state));
          newCart = recalc its;
          newState = \<lparr>cart = newCart, loading = False, error = None\<rparr>
      in (newState, safeSet newState e))"

definition removeFromCart :: "product_id \<Rightarrow> key_options option \<Rightarrow> env \<Rightarrow> cart_state \<times> env" where
  "removeFromCart i options e =
     (let state = safeGet e;
          its = filter (\<lambda>it. \<not> matchesLine i options it) (items (cart state));
          newCart = recalc its;
          newState = \<lparr>cart = newCart, loading = False, error = None\<rparr>
      in (newState, safeSet newState e))"

definition clearCart :: "env \<Rightarrow> cart_state \<times> env" where
  "clearCart e =
     (let newState = \<lparr>cart = recalc [], loading = False, error = None\<rparr>
      in (newState, safeSet newState e))"

section \<open>Quote form: the tax identifier (RUT helpers of the quote modal)\<close>

text \<open>
  A string is a list of characters. \<^verbatim>\<open>toUpperCase\<close> is modelled on the letters
  \<^verbatim>\<open>a\<close> to \<^verbatim>\<open>z\<close>; no other character becomes a digit or \<^verbatim>\<open>K\<close> by it.
\<close>

definition isDigit :: "char \<Rightarrow> bool" where
  "isDigit c \<longleftrightarrow> (48::nat) \<le> of_char c \<and> (of_char c :: nat) \<le> 57"

definition upperChar :: "char \<Rightarrow> char" where
  "upperChar c =
     (let n = (of_char c :: nat) in if 97 \<le> n \<and> n \<le> 122 then char_of (n - 32) else c)"

definition toUpperCase :: "string \<Rightarrow> string" where
  "toUpperCase s = map upperChar s"

text \<open>\<^verbatim>\<open>rut.replace(/\./g, "").replace(/-/g, "").toUpperCase()\<close>\<close>

definition cleanRut :: "string \<Rightarrow> string" where
  "cleanRut rut =
     toUpperCase (filter (\<lambda>c. c \<noteq> CHR ''-'') (filter (\<lambda>c. c \<noteq> CHR ''.'') rut))"

text \<open>\<^verbatim>\<open>s.slice(0, -1)\<close> and \<^verbatim>\<open>s.slice(-1)\<close>; both are empty on the empty string.\<close>

definition sliceInit :: "string \<Rightarrow> string" where
  "sliceInit s = butlast s"

definition sliceLast :: "string \<Rightarrow> string" where
  "sliceLast s = (if s = [] then [] else [last s])"

text \<open>
  \<^verbatim>\<open>Number(ch)\<close> for a string of one character: the value of a digit. On any other
  character the result is \<open>None\<close>; the validator calls \<^verbatim>\<open>calcDV\<close> on digits only.
\<close>

definition Number1 :: "string \<Rightarrow> int option" where
  "Number1 s =
     (case s of
        [c] \<Rightarrow> if isDigit c then Some (int (of_char c) - 48) else None
      | _ \<Rightarrow> None)"

text \<open>
  The loop of \<^verbatim>\<open>calcDV\<close>:
  \<^verbatim>\<open>for (; rutNumber; rutNumber = rutNumber.slice(0, -1))
      S = (S + Number(rutNumber.slice(-1)) * (9 - (M++ % 6))) % 11;\<close>
\<close>

function calcDV_loop :: "string \<Rightarrow> nat \<Rightarrow> int \<Rightarrow> int option" where
  "calcDV_loop rutNumber M S =
     (if rutNumber = [] then Some S
      else
        (case Number1 (sliceLast rutNumber) of
           None \<Rightarrow> None
         | Some d \<Rightarrow>
             calcDV_loop (sliceInit rutNumber) (M + 1) ((S + d * (9 - int (M mod 6))) mod 11)))"
  by pat_completeness auto
termination
  by (relation "measure (\<lambda>(rutNumber, M, S). length rutNumber)") (auto simp: sliceInit_def)

declare calcDV_loop.simps [simp del]

definition calcDV :: "string \<Rightarrow> string option" where
  "calcDV rutNumber =
     map_option (\<lambda>S. if S \<noteq> 0 then String_of_int (S - 1) else ''K'') (calcDV_loop rutNumber 0 1)"

text \<open>The test \<^verbatim>\<open>/^\d{1,8}[0-9K]$/\<close>: between one and eight digits, then a digit or \<^verbatim>\<open>K\<close>.\<close>

definition rutPattern :: "string \<Rightarrow> bool" where
  "rutPattern c \<longleftrightarrow>
     (\<exists>n \<in> {1..8}. length c = n + 1 \<and> list_all isDigit (take n c)
        \<and> (isDigit (c ! n) \<or> c ! n = CHR ''K''))"

definition validateRut :: "string \<Rightarrow> bool" where
  "validateRut rut =
     (let c = cleanRut rut in
      if \<not> rutPattern c then False
      else
        let body = sliceInit c;
            dv = sliceLast c
        in calcDV body = Some dv)"

text \<open>
  The form keeps the typed text as it is: the input's \<^verbatim>\<open>onChange\<close> is
  \<^verbatim>\<open>setRut(e.target.value)\<close>. \<^verbatim>\<open>rutOk\<close> is \<^verbatim>\<open>rut ? validateRut(rut) : true\<close>, and the
  print button carries \<^verbatim>\<open>disabled={!rutOk && !!rut}\<close>.
\<close>

record quote_form =
  rut :: string
  razon :: string
  giro :: string
  email :: string
  telefono :: string
  region :: string
  comuna :: string
  direccion :: string
  notas :: string

definition setRut :: "string \<Rightarrow> quote_form \<Rightarrow> quote_form" where
  "setRut v f = f\<lparr>rut := v\<rparr>"

definition rutOk :: "quote_form \<Rightarrow> bool" where
  "rutOk f = (if rut f \<noteq> [] then validateRut (rut f) else True)"

definition printDisabled :: "quote_form \<Rightarrow> bool" where
  "printDisabled f \<longleftrightarrow> \<not> rutOk f \<and> rut f \<noteq> []"

subsection \<open>The reference check digit\<close>

text \<open>
  The modulus-11 check digit as it is usually stated, for comparison with \<^verbatim>\<open>calcDV\<close>:
  the digits of the body, taken from the right, are multiplied by the weights
  2, 3, 4, 5, 6, 7, 2, 3, ...; with \<open>t\<close> the sum of the products and
  \<open>r = 11 - t mod 11\<close>, the check digit is \<^verbatim>\<open>0\<close> when \<open>r = 11\<close>, \<^verbatim>\<open>K\<close> when \<open>r = 10\<close>, and
  the digit \<open>r\<close> otherwise.
\<close>

fun weightedSum :: "nat \<Rightarrow> nat list \<Rightarrow> nat" where
  "weightedSum i [] = 0"
| "weightedSum i (d # ds) = d * (2 + i mod 6) + weightedSum (Suc i) ds"

definition digitValue :: "char \<Rightarrow> nat" where
  "digitValue c = of_char c - 48"

definition modulus11_reference :: "string \<Rightarrow> char" where
  "modulus11_reference body =
     (let t = weightedSum 0 (rev (map digitValue body));
          r = 11 - t mod 11
      in if r = 11 then CHR ''0'' else if r = 10 then CHR ''K'' else digitChar r)"

section \<open>Auxiliary notions and example data\<close>

text \<open>
  The order in which \<open>pickBest\<close> prefers price breaks: a lower price first, and at equal
  price the larger threshold.
\<close>

definition atLeastAsGood :: "price_break \<Rightarrow> price_break \<Rightarrow> bool" where
  "atLeastAsGood r b \<longleftrightarrow> price r < price b \<or> (price r = price b \<and> minQty b \<le> minQty r)"

text \<open>The example product of the specification: base price 1000, 900 from 10, 800 from 50.\<close>

definition exampleProduct :: product where
  "exampleProduct =
     \<lparr>prod_id = 1, prod_sku = ''P-1'', prod_name = ''Mug'', basePrice = 1000, stock = 500,
      priceBreaks = Some [\<lparr>minQty = 10, price = 900, discount = None\<rparr>,
                          \<lparr>minQty = 50, price = 800, discount = None\<rparr>]\<rparr>"

text \<open>A product with unsorted tiers, two of which share the lowest eligible price.\<close>

definition tieProduct :: product where
  "tieProduct =
     \<lparr>prod_id = 2, prod_sku = ''P-2'', prod_name = ''Pen'', basePrice = 1000, stock = 500,
      priceBreaks = Some [\<lparr>minQty = 60, price = 800, discount = None\<rparr>,
                          \<lparr>minQty = 10, price = 900, discount = None\<rparr>,
                          \<lparr>minQty = 50, price = 800, discount = None\<rparr>,
                          \<lparr>minQty = 100, price = 700, discount = None\<rparr>]\<rparr>"

text \<open>A product whose only tier is priced above the base price.\<close>

definition overpricedProduct :: product where
  "overpricedProduct =
     \<lparr>prod_id = 3, prod_sku = ''P-3'', prod_name = ''Cap'', basePrice = 1000, stock = 500,
      priceBreaks = Some [\<lparr>minQty = 10, price = 1200, discount = None\<rparr>]\<rparr>"


text \<open>
  The invariant of a cart state: the totals are the sums over the lines, and the state does
  not load.
\<close>

definition cartInvariant :: "cart_state \<Rightarrow> bool" where
  "cartInvariant st \<longleftrightarrow>
     totalQty (cart st) = sum_list (map qty (items (cart st)))
     \<and> totalPrice (cart st) = sum_list (map (\<lambda>it. item_price it * qty it) (items (cart st)))
     \<and> loading st = False"

text \<open>A stored record of the right shape whose totals do not fit its (empty) list of lines.\<close>

definition inconsistentEnv :: env where
  "inconsistentEnv =
     Window (Str (Parsable (WithCart \<lparr>items = [], totalQty = 7, totalPrice = 0\<rparr>)))"

text \<open>A cart line with quantity 2.\<close>

definition mugLine :: cart_item where
  "mugLine = \<lparr>item_id = IdNum 7, qty = 2, item_name = ''Mug'', item_price = 900,
      item_image = None, sku = ''P-1'', color = Some ''red'', item_size = None\<rparr>"

text \<open>A quote form in which a tax identifier with a wrong check digit has been typed.\<close>

definition invalidRutForm :: quote_form where
  "invalidRutForm =
     \<lparr>rut = ''12.345.678-9'', razon = ''ACME'', giro = [], email = [], telefono = [],
      region = [], comuna = [], direccion = [], notas = []\<rparr>"

section \<open>Properties of the pricing engine\<close>

subsection \<open>The best price break\<close>

lemma atLeastAsGood_refl: "atLeastAsGood r r"
  by (simp add: atLeastAsGood_def)

lemma atLeastAsGood_trans: "atLeastAsGood a b \<Longrightarrow> atLeastAsGood b c \<Longrightarrow> atLeastAsGood a c"
  by (auto simp: atLeastAsGood_def)

lemma pickBest_None: "pickBest None x = Some x"
  by (simp add: pickBest_def)

lemma pickBest_Some:
  "\<exists>r. pickBest (Some a) x = Some r \<and> (r = a \<or> r = x) \<and> atLeastAsGood r a \<and> atLeastAsGood r x"
  by (auto simp: pickBest_def atLeastAsGood_def)

lemma foldl_pickBest_from_Some:
  "\<exists>r. foldl pickBest (Some a) xs = Some r \<and> (r = a \<or> r \<in> set xs)
       \<and> atLeastAsGood r a \<and> (\<forall>b \<in> set xs. atLeastAsGood r b)"
proof (induction xs arbitrary: a)
  case Nil
  show ?case by (simp add: atLeastAsGood_refl)
next
  case (Cons x xs)
  obtain m where m: "pickBest (Some a) x = Some m" "m = a \<or> m = x"
      "atLeastAsGood m a" "atLeastAsGood m x"
    using pickBest_Some by blast
  obtain r where r: "foldl pickBest (Some m) xs = Some r" "r = m \<or> r \<in> set xs"
      "atLeastAsGood r m" "\<forall>b \<in> set xs. atLeastAsGood r b"
    using Cons.IH by blast
  have "foldl pickBest (Some a) (x # xs) = Some r"
    using m(1) r(1) by simp
  moreover have "r = a \<or> r \<in> set (x # xs)"
    using m(2) r(2) by auto
  moreover have "atLeastAsGood r a" "atLeastAsGood r x"
    using r(3) m(3,4) atLeastAsGood_trans by blast+
  ultimately show ?case
    using r(4) by auto
qed

lemma foldl_pickBest_nonempty:
  assumes "xs \<noteq> []"
  shows "\<exists>r. foldl pickBest None xs = Some r \<and> r \<in> set xs \<and> (\<forall>b \<in> set xs. atLeastAsGood r b)"
proof -
  obtain x ys where xs: "xs = x # ys"
    using assms by (cases xs) auto
  obtain r where r: "foldl pickBest (Some x) ys = Some r" "r = x \<or> r \<in> set ys"
      "atLeastAsGood r x" "\<forall>b \<in> set ys. atLeastAsGood r b"
    using foldl_pickBest_from_Some by blast
  then show ?thesis
    by (auto simp: xs pickBest_None)
qed

lemma set_eligible:
  "set (filter (\<lambda>b. q \<ge> minQty b) (sortBreaks p)) = {b \<in> set (breaksOrEmpty p). minQty b \<le> q}"
  by (auto simp: sortBreaks_def)

lemma getBestBreakForQty_None_iff:
  "getBestBreakForQty p q = None \<longleftrightarrow> (\<forall>b \<in> set (breaksOrEmpty p). \<not> minQty b \<le> q)"
proof (cases "filter (\<lambda>b. q \<ge> minQty b) (sortBreaks p) = []")
  case True
  then have "getBestBreakForQty p q = None"
    by (simp add: getBestBreakForQty_def Let_def)
  moreover have "{b \<in> set (breaksOrEmpty p). minQty b \<le> q} = {}"
    using True set_eligible [of q p] by simp
  ultimately show ?thesis by auto
next
  case False
  then have ne: "sortBreaks p \<noteq> []" by auto
  obtain r where "foldl pickBest None (filter (\<lambda>b. q \<ge> minQty b) (sortBreaks p)) = Some r"
    using foldl_pickBest_nonempty [OF False] by blast
  then have "getBestBreakForQty p q \<noteq> None"
    using False ne by (simp add: getBestBreakForQty_def Let_def)
  moreover have "{b \<in> set (breaksOrEmpty p). minQty b \<le> q} \<noteq> {}"
    using False set_eligible [of q p] by (metis set_empty)
  ultimately show ?thesis by auto
qed

lemma getBestBreakForQty_Some:
  assumes "getBestBreakForQty p q = Some r"
  shows "r \<in> set (breaksOrEmpty p) \<and> minQty r \<le> q
         \<and> (\<forall>b \<in> set (breaksOrEmpty p). minQty b \<le> q \<longrightarrow> atLeastAsGood r b)"
proof -
  let ?el = "filter (\<lambda>b. q \<ge> minQty b) (sortBreaks p)"
  have ne: "?el \<noteq> []" "sortBreaks p \<noteq> []"
    using assms by (auto simp: getBestBreakForQty_def Let_def split: if_splits)
  then have "foldl pickBest None ?el = Some r"
    using assms by (simp add: getBestBreakForQty_def Let_def)
  moreover obtain r' where "foldl pickBest None ?el = Some r'" "r' \<in> set ?el"
      "\<forall>b \<in> set ?el. atLeastAsGood r' b"
    using foldl_pickBest_nonempty [OF ne(1)] by blast
  ultimately have "r \<in> set ?el" "\<forall>b \<in> set ?el. atLeastAsGood r b"
    by auto
  then show ?thesis
    unfolding set_eligible by auto
qed

lemma tieProduct_best_60:
  "getBestBreakForQty tieProduct 60 = Some \<lparr>minQty = 60, price = 800, discount = None\<rparr>"
  by (simp add: tieProduct_def getBestBreakForQty_def sortBreaks_def breaksOrEmpty_def pickBest_def)

text \<open>
  Claim C1. \<open>getBestBreakForQty p q\<close> returns nothing exactly when no price break of \<open>p\<close>
  has \<open>minQty \<le> q\<close>. Otherwise it returns one of the breaks with \<open>minQty \<le> q\<close> whose
  price is the lowest among them, and among the eligible breaks of that lowest price one
  with the largest \<open>minQty\<close>.
\<close>

theorem getBestBreakForQty_spec:
  "(getBestBreakForQty p q = None \<longleftrightarrow> (\<forall>b \<in> set (breaksOrEmpty p). \<not> minQty b \<le> q))
   \<and> (\<forall>r. getBestBreakForQty p q = Some r \<longrightarrow>
         r \<in> set (breaksOrEmpty p) \<and> minQty r \<le> q
         \<and> (\<forall>b \<in> set (breaksOrEmpty p). minQty b \<le> q \<longrightarrow>
               price r \<le> price b \<and> (price b = price r \<longrightarrow> minQty b \<le> minQty r)))"
proof (intro conjI allI impI)
  show "getBestBreakForQty p q = None \<longleftrightarrow> (\<forall>b \<in> set (breaksOrEmpty p). \<not> minQty b \<le> q)"
    by (rule getBestBreakForQty_None_iff)
next
  fix r assume "getBestBreakForQty p q = Some r"
  from getBestBreakForQty_Some [OF this]
  show "r \<in> set (breaksOrEmpty p)" and "minQty r \<le> q"
    and "\<forall>b \<in> set (breaksOrEmpty p). minQty b \<le> q \<longrightarrow>
               price r \<le> price b \<and> (price b = price r \<longrightarrow> minQty b \<le> minQty r)"
    by (auto simp: atLeastAsGood_def)
qed

theorem getBestBreakForQty_spec_witness:
  "getBestBreakForQty tieProduct 60 = Some \<lparr>minQty = 60, price = 800, discount = None\<rparr>
   \<and> \<lparr>minQty = 50, price = 800, discount = None\<rparr> \<in> set (breaksOrEmpty tieProduct)
   \<and> minQty \<lparr>minQty = 50, price = 800, discount = None\<rparr> \<le> (60::rat)
   \<and> price \<lparr>minQty = 60, price = 800, discount = None\<rparr>
       \<le> price \<lparr>minQty = 50, price = 800, discount = None\<rparr>
   \<and> minQty \<lparr>minQty = 50, price = 800, discount = None\<rparr>
       \<le> minQty \<lparr>minQty = 60, price = 800, discount = None\<rparr>
   \<and> getBestBreakForQty tieProduct 5 = None"
proof -
  let ?r = "\<lparr>minQty = 60, price = 800, discount = None\<rparr> :: price_break"
  let ?b = "\<lparr>minQty = 50, price = 800, discount = None\<rparr> :: price_break"
  have mem: "?b \<in> set (breaksOrEmpty tieProduct)" and le: "minQty ?b \<le> 60"
    by (simp_all add: tieProduct_def breaksOrEmpty_def)
  have "\<forall>b \<in> set (breaksOrEmpty tieProduct). minQty b \<le> 60 \<longrightarrow>
          price ?r \<le> price b \<and> (price b = price ?r \<longrightarrow> minQty b \<le> minQty ?r)"
    using getBestBreakForQty_spec [of tieProduct 60] tieProduct_best_60 by blast
  with mem le have best: "price ?r \<le> price ?b \<and> minQty ?b \<le> minQty ?r"
    by simp
  have "\<forall>b \<in> set (breaksOrEmpty tieProduct). \<not> minQty b \<le> 5"
    by (simp add: tieProduct_def breaksOrEmpty_def)
  then have "getBestBreakForQty tieProduct 5 = None"
    using getBestBreakForQty_spec [of tieProduct 5] by blast
  then show ?thesis
    using mem le best tieProduct_best_60 by blast
qed

subsection \<open>The unit price\<close>

lemma exampleProduct_best_60:
  "getBestBreakForQty exampleProduct 60 = Some \<lparr>minQty = 50, price = 800, discount = None\<rparr>"
  by (simp add: exampleProduct_def getBestBreakForQty_def sortBreaks_def breaksOrEmpty_def
      pickBest_def)

lemma exampleProduct_best_10:
  "getBestBreakForQty exampleProduct 10 = Some \<lparr>minQty = 10, price = 900, discount = None\<rparr>"
  by (simp add: exampleProduct_def getBestBreakForQty_def sortBreaks_def breaksOrEmpty_def
      pickBest_def)

lemma exampleProduct_base: "basePrice exampleProduct = 1000"
  by (simp add: exampleProduct_def)

lemma unit_le_base: "getUnitPriceForQty p q \<le> basePrice p"
  by (simp add: getUnitPriceForQty_def split: option.splits)

lemma unit_le_eligible:
  assumes "b \<in> set (breaksOrEmpty p)" "minQty b \<le> q"
  shows "getUnitPriceForQty p q \<le> price b"
proof (cases "getBestBreakForQty p q")
  case None
  then show ?thesis
    using assms getBestBreakForQty_None_iff by blast
next
  case (Some r)
  then have "atLeastAsGood r b"
    using assms getBestBreakForQty_Some by blast
  then have "price r \<le> price b"
    by (auto simp: atLeastAsGood_def)
  then show ?thesis
    using Some by (simp add: getUnitPriceForQty_def)
qed

lemma unit_is_base_or_eligible:
  "getUnitPriceForQty p q = basePrice p
   \<or> (\<exists>b \<in> set (breaksOrEmpty p). minQty b \<le> q \<and> getUnitPriceForQty p q = price b)"
proof (cases "getBestBreakForQty p q")
  case None
  then show ?thesis by (simp add: getUnitPriceForQty_def)
next
  case (Some r)
  then have "r \<in> set (breaksOrEmpty p)" "minQty r \<le> q"
    using getBestBreakForQty_Some by blast+
  moreover have "getUnitPriceForQty p q = basePrice p \<or> getUnitPriceForQty p q = price r"
    using Some by (auto simp: getUnitPriceForQty_def min_def)
  ultimately show ?thesis by blast
qed

lemma unit_price_antimono:
  assumes "q1 \<le> q2"
  shows "getUnitPriceForQty p q2 \<le> getUnitPriceForQty p q1"
  using unit_is_base_or_eligible [of p q1]
proof
  assume "getUnitPriceForQty p q1 = basePrice p"
  then show ?thesis by (simp add: unit_le_base)
next
  assume "\<exists>b \<in> set (breaksOrEmpty p). minQty b \<le> q1 \<and> getUnitPriceForQty p q1 = price b"
  then obtain b where b: "b \<in> set (breaksOrEmpty p)" "minQty b \<le> q1"
      "getUnitPriceForQty p q1 = price b"
    by blast
  then have "minQty b \<le> q2" using assms by simp
  then show ?thesis
    using b unit_le_eligible by simp
qed

text \<open>
  Claim C2. When some price break is eligible (\<open>minQty \<le> q\<close>), the unit price is the
  smaller of the best break's price and the base price; when none is, it is the base
  price. In every case the unit price is at most the base price.
\<close>

theorem getUnitPriceForQty_spec:
  "((\<exists>b \<in> set (breaksOrEmpty p). minQty b \<le> q) \<longrightarrow>
      (\<exists>best. getBestBreakForQty p q = Some best
         \<and> getUnitPriceForQty p q = min (price best) (basePrice p)))
   \<and> ((\<forall>b \<in> set (breaksOrEmpty p). \<not> minQty b \<le> q) \<longrightarrow> getUnitPriceForQty p q = basePrice p)
   \<and> getUnitPriceForQty p q \<le> basePrice p"
proof (intro conjI impI)
  assume "\<exists>b \<in> set (breaksOrEmpty p). minQty b \<le> q"
  then have "getBestBreakForQty p q \<noteq> None"
    by (simp add: getBestBreakForQty_None_iff)
  then show "\<exists>best. getBestBreakForQty p q = Some best
         \<and> getUnitPriceForQty p q = min (price best) (basePrice p)"
    by (auto simp: getUnitPriceForQty_def)
next
  assume "\<forall>b \<in> set (breaksOrEmpty p). \<not> minQty b \<le> q"
  then have "getBestBreakForQty p q = None"
    by (simp add: getBestBreakForQty_None_iff)
  then show "getUnitPriceForQty p q = basePrice p"
    by (simp add: getUnitPriceForQty_def)
next
  show "getUnitPriceForQty p q \<le> basePrice p"
    by (rule unit_le_base)
qed

theorem getUnitPriceForQty_spec_witness:
  "\<lparr>minQty = 10, price = 900, discount = None\<rparr> \<in> set (breaksOrEmpty exampleProduct)
   \<and> minQty \<lparr>minQty = 10, price = 900, discount = None\<rparr> \<le> (60::rat)
   \<and> getUnitPriceForQty exampleProduct 60 = 800
   \<and> getUnitPriceForQty exampleProduct 5 = 1000
   \<and> getUnitPriceForQty exampleProduct 60 \<le> basePrice exampleProduct"
proof -
  let ?b = "\<lparr>minQty = 10, price = 900, discount = None\<rparr> :: price_break"
  have el: "?b \<in> set (breaksOrEmpty exampleProduct)" "minQty ?b \<le> 60"
    by (simp_all add: exampleProduct_def breaksOrEmpty_def)
  then have "\<exists>b \<in> set (breaksOrEmpty exampleProduct). minQty b \<le> 60"
    by blast
  then obtain best where best: "getBestBreakForQty exampleProduct 60 = Some best"
      "getUnitPriceForQty exampleProduct 60 = min (price best) (basePrice exampleProduct)"
    using getUnitPriceForQty_spec [of exampleProduct 60] by blast
  from best(1) have "best = \<lparr>minQty = 50, price = 800, discount = None\<rparr>"
    by (simp add: exampleProduct_best_60)
  with best(2) have u60: "getUnitPriceForQty exampleProduct 60 = 800"
    by (simp add: exampleProduct_base)
  have "\<forall>b \<in> set (breaksOrEmpty exampleProduct). \<not> minQty b \<le> 5"
    by (simp add: exampleProduct_def breaksOrEmpty_def)
  then have u5: "getUnitPriceForQty exampleProduct 5 = 1000"
    using getUnitPriceForQty_spec [of exampleProduct 5] by (simp add: exampleProduct_base)
  have "getUnitPriceForQty exampleProduct 60 \<le> basePrice exampleProduct"
    using getUnitPriceForQty_spec [of exampleProduct 60] by blast
  with el u60 u5 show ?thesis by blast
qed

text \<open>
  Claim C4. For quantities \<open>q1 \<le> q2\<close> the unit price at \<open>q2\<close> is at most the unit price
  at \<open>q1\<close>, for a product whose tiers are listed with strictly increasing thresholds.
  (Lemma \<open>unit_price_antimono\<close> shows that the order of the tiers plays no part.)
\<close>

theorem unit_price_monotone:
  assumes "sorted_wrt (<) (map minQty (breaksOrEmpty p))" and "q1 \<le> q2"
  shows "getUnitPriceForQty p q1 \<ge> getUnitPriceForQty p q2"
  using assms(2) by (rule unit_price_antimono)

theorem unit_price_monotone_witness:
  "sorted_wrt (<) (map minQty (breaksOrEmpty exampleProduct))
   \<and> (10::rat) \<le> 60
   \<and> getUnitPriceForQty exampleProduct 10 \<ge> getUnitPriceForQty exampleProduct 60
   \<and> getUnitPriceForQty exampleProduct 10 = 900
   \<and> getUnitPriceForQty exampleProduct 60 = 800"
proof -
  have s: "sorted_wrt (<) (map minQty (breaksOrEmpty exampleProduct))"
    by (simp add: exampleProduct_def breaksOrEmpty_def)
  have le: "(10::rat) \<le> 60" by simp
  have "getUnitPriceForQty exampleProduct 10 \<ge> getUnitPriceForQty exampleProduct 60"
    using unit_price_monotone [OF s le] .
  moreover have "getUnitPriceForQty exampleProduct 10 = 900"
    by (simp add: getUnitPriceForQty_def exampleProduct_best_10 exampleProduct_base)
  moreover have "getUnitPriceForQty exampleProduct 60 = 800"
    by (simp add: getUnitPriceForQty_def exampleProduct_best_60 exampleProduct_base)
  ultimately show ?thesis
    using s le by blast
qed

subsection \<open>The discount percentage\<close>

lemma discount_value:
  assumes "0 < basePrice p * q"
  shows "getDiscountPercent p q
         = Some ((basePrice p * q - getUnitPriceForQty p q * q) / (basePrice p * q) * 100)"
proof -
  have "basePrice p \<noteq> 0" "q \<noteq> 0" "\<not> basePrice p * q \<le> 0"
    using assms by auto
  then show ?thesis
    by (simp add: getDiscountPercent_def js_divide_def Let_def)
qed

lemma discount_zero: "basePrice p * q \<le> 0 \<Longrightarrow> getDiscountPercent p q = Some 0"
  by (simp add: getDiscountPercent_def)

text \<open>
  Claim C6. \<open>getDiscountPercent\<close> returns 0 whenever \<open>basePrice * q \<le> 0\<close>, in particular
  when the base price or the quantity is 0. The quotient is taken only when
  \<open>basePrice * q > 0\<close>, so the result is always a number: the division by zero, which the
  model marks by \<open>None\<close>, does not occur.
\<close>

theorem getDiscountPercent_total:
  "(basePrice p * q \<le> 0 \<longrightarrow> getDiscountPercent p q = Some 0)
   \<and> (basePrice p = 0 \<or> q = 0 \<longrightarrow> getDiscountPercent p q = Some 0)
   \<and> (\<exists>d. getDiscountPercent p q = Some d)"
proof (intro conjI impI)
  show "getDiscountPercent p q = Some 0" if "basePrice p * q \<le> 0"
    using that by (rule discount_zero)
  show "getDiscountPercent p q = Some 0" if "basePrice p = 0 \<or> q = 0"
    using that by (auto simp: discount_zero)
  show "\<exists>d. getDiscountPercent p q = Some d"
    by (cases "basePrice p * q \<le> 0") (simp_all add: discount_zero discount_value)
qed

theorem getDiscountPercent_total_witness:
  "basePrice exampleProduct * 0 \<le> 0 \<and> getDiscountPercent exampleProduct 0 = Some 0"
proof -
  have "basePrice exampleProduct * 0 \<le> 0" by simp
  then show ?thesis
    using getDiscountPercent_total [of exampleProduct 0] by blast
qed

lemma discount_nonneg:
  assumes "0 < q"
  shows "\<exists>d. getDiscountPercent p q = Some d \<and> 0 \<le> d"
proof (cases "basePrice p * q \<le> 0")
  case True
  then show ?thesis by (simp add: discount_zero)
next
  case False
  then have pos: "0 < basePrice p * q" by simp
  have "getUnitPriceForQty p q * q \<le> basePrice p * q"
    using assms unit_le_base [of p q] by (simp add: mult_right_mono)
  then have "0 \<le> (basePrice p * q - getUnitPriceForQty p q * q) / (basePrice p * q) * 100"
    using pos by simp
  then show ?thesis
    using pos by (simp add: discount_value)
qed

lemma discount_zero_above_base:
  assumes "getBestBreakForQty p q = Some b" "basePrice p \<le> price b"
  shows "getDiscountPercent p q = Some 0"
proof (cases "basePrice p * q \<le> 0")
  case True
  then show ?thesis by (simp add: discount_zero)
next
  case False
  have "getUnitPriceForQty p q = basePrice p"
    using assms by (simp add: getUnitPriceForQty_def min_def)
  then show ?thesis
    using False by (simp add: discount_value)
qed

lemma discount_nonneg_thresholds:
  assumes "\<forall>b \<in> set (breaksOrEmpty p). 0 \<le> minQty b"
  shows "\<exists>d. getDiscountPercent p q = Some d \<and> 0 \<le> d"
proof (cases "0 < q")
  case True
  then show ?thesis by (rule discount_nonneg)
next
  case False
  show ?thesis
  proof (cases "basePrice p * q \<le> 0")
    case True
    then show ?thesis by (simp add: discount_zero)
  next
    case nz: False
    then have "q < 0"
      using False by (cases "q = 0") auto
    then have "\<forall>b \<in> set (breaksOrEmpty p). \<not> minQty b \<le> q"
      using assms by fastforce
    then have "getBestBreakForQty p q = None"
      by (simp add: getBestBreakForQty_None_iff)
    then have "getUnitPriceForQty p q = basePrice p"
      by (simp add: getUnitPriceForQty_def)
    then show ?thesis
      using nz by (simp add: discount_value)
  qed
qed

lemma discount_nonneg_in_domain:
  assumes "0 < q \<or> (\<forall>b \<in> set (breaksOrEmpty p). 0 \<le> minQty b)"
  shows "\<exists>d. getDiscountPercent p q = Some d \<and> 0 \<le> d"
  using assms discount_nonneg discount_nonneg_thresholds by blast

text \<open>
  With a tier above the base price applied, the discount of the natural example is 0:
  \<open>getUnitPriceForQty\<close> has already taken the minimum with the base price.
\<close>

lemma overpricedProduct_best_10:
  "getBestBreakForQty overpricedProduct 10 = Some \<lparr>minQty = 10, price = 1200, discount = None\<rparr>"
  by (simp add: overpricedProduct_def getBestBreakForQty_def sortBreaks_def breaksOrEmpty_def
      pickBest_def)

lemma overpricedProduct_discount: "getDiscountPercent overpricedProduct 10 = Some 0"
  by (rule discount_zero_above_base [OF overpricedProduct_best_10])
     (simp add: overpricedProduct_def)



subsection \<open>The one-shot calculator\<close>

text \<open>
  Claim C5. The one-shot calculator only composes the other functions: its unit price is
  \<open>getUnitPriceForQty\<close>, its net subtotal is exactly that unit price times the quantity,
  and its discount percentage is \<open>getDiscountPercent\<close>.
\<close>

theorem computePricing_composes:
  "netSubtotal (computePricing p q) = getUnitPriceForQty p q * q
   \<and> unitPrice (computePricing p q) = getUnitPriceForQty p q
   \<and> discountPercent (computePricing p q) = getDiscountPercent p q"
  by (simp add: computePricing_def Let_def)

section \<open>Properties of the cart store\<close>

subsection \<open>Totals\<close>

lemma foldl_add_acc:
  "foldl (\<lambda>s it. s + f it) a xs = a + sum_list (map f xs)"
  for a :: rat
  by (induction xs arbitrary: a) (simp_all add: add.assoc)

lemma recalc_totals:
  "items (recalc its) = its"
  "totalQty (recalc its) = sum_list (map qty its)"
  "totalPrice (recalc its) = sum_list (map (\<lambda>it. item_price it * qty it) its)"
  by (simp_all add: recalc_def Let_def foldl_add_acc)

lemma inv_recalc: "cartInvariant \<lparr>cart = recalc its, loading = False, error = None\<rparr>"
  by (simp add: cartInvariant_def recalc_totals)

lemma inv_addToCart: "cartInvariant (fst (addToCart new e))"
  by (simp add: addToCart_def Let_def inv_recalc)

lemma inv_setQty: "cartInvariant (fst (setQty i q options e))"
  by (simp add: setQty_def Let_def inv_recalc)

lemma inv_removeFromCart: "cartInvariant (fst (removeFromCart i options e))"
  by (simp add: removeFromCart_def Let_def inv_recalc)

lemma inv_clearCart: "cartInvariant (fst (clearCart e))"
  by (simp add: clearCart_def Let_def inv_recalc)

lemma getCart_inconsistent: "\<not> cartInvariant (getCart inconsistentEnv)"
  by (simp add: getCart_def safeGet_def safeGet_try_def JSON_parse_def inconsistentEnv_def cartInvariant_def)

lemma safeGet_safeSet: "safeGet (safeSet st (Window d)) = \<lparr>cart = cart st, loading = False, error = None\<rparr>"
  by (simp add: safeGet_def safeSet_def safeGet_try_def JSON_parse_def)

lemma findIndex_neg_iff: "findIndex P xs < 0 \<longleftrightarrow> (\<forall>x \<in> set xs. \<not> P x)"
  by (induction xs) (auto simp: Let_def)

lemma findIndex_first:
  assumes "0 \<le> findIndex P xs"
  shows "nat (findIndex P xs) < length xs \<and> P (xs ! nat (findIndex P xs))
         \<and> (\<forall>j < nat (findIndex P xs). \<not> P (xs ! j))"
  using assms
proof (induction xs)
  case Nil
  then show ?case by simp
next
  case (Cons x xs)
  show ?case
  proof (cases "P x")
    case True
    then show ?thesis by simp
  next
    case False
    then have r: "0 \<le> findIndex P xs" and eq: "findIndex P (x # xs) = findIndex P xs + 1"
      using Cons.prems by (auto simp: Let_def split: if_splits)
    from Cons.IH [OF r] have ih: "nat (findIndex P xs) < length xs"
        "P (xs ! nat (findIndex P xs))" "\<forall>j < nat (findIndex P xs). \<not> P (xs ! j)"
      by auto
    have n: "nat (findIndex P (x # xs)) = Suc (nat (findIndex P xs))"
      using r eq by simp
    show ?thesis
      unfolding n using ih False by (auto simp: less_Suc_eq_0_disj)
  qed
qed


text \<open>
  Claim C10. The state returned by \<open>addToCart\<close>, \<open>setQty\<close>, \<open>removeFromCart\<close> and
  \<open>clearCart\<close> has \<open>totalQty\<close> equal to the sum of the quantities of its lines,
  \<open>totalPrice\<close> equal to the sum of price times quantity, and \<open>loading = False\<close>.
  \<open>getCart\<close> does not recompute the totals: on a well-formed stored record whose totals
  do not fit its lines it returns a state that violates the invariant.
\<close>

theorem cart_invariant:
  "cartInvariant (fst (addToCart new e))
   \<and> cartInvariant (fst (setQty i q options e))
   \<and> cartInvariant (fst (removeFromCart i options e))
   \<and> cartInvariant (fst (clearCart e))
   \<and> \<not> cartInvariant (getCart inconsistentEnv)"
  by (simp add: inv_addToCart inv_setQty inv_removeFromCart inv_clearCart getCart_inconsistent)


subsection \<open>Reading the storage\<close>

text \<open>
  Claim C8. When the stored content is missing (or empty), is not valid JSON, or parses
  to a value without a \<^verbatim>\<open>cart\<close> field, \<open>getCart\<close> returns a state with no lines and
  with both totals 0. The \<^verbatim>\<open>SyntaxError\<close> of the parser is thrown inside the \<^verbatim>\<open>try\<close>
  block (\<open>safeGet_try\<close>) and caught: the result of \<open>getCart\<close> is a state in every case.
\<close>

theorem getCart_fallback:
  assumes "d = Null \<or> d = EmptyString \<or> d = Str Unparsable \<or> d = Str (Parsable Falsy)
           \<or> d = Str (Parsable NoCartField)"
  shows "items (cart (getCart (Window d))) = [] \<and> totalQty (cart (getCart (Window d))) = 0
         \<and> totalPrice (cart (getCart (Window d))) = 0 \<and> loading (getCart (Window d)) = False
         \<and> error (getCart (Window d)) = None"
  using assms
  by (auto simp: getCart_def safeGet_def safeGet_try_def JSON_parse_def emptyState_def recalc_def)

theorem getCart_fallback_witness:
  "safeGet_try (Str Unparsable) = Inl SyntaxError
   \<and> items (cart (getCart (Window (Str Unparsable)))) = []
   \<and> totalQty (cart (getCart (Window (Str Unparsable)))) = 0
   \<and> totalPrice (cart (getCart (Window (Str Unparsable)))) = 0"
  using getCart_fallback [of "Str Unparsable"]
  by (simp add: safeGet_try_def JSON_parse_def)

subsection \<open>Adding a line\<close>

lemma sameKey_sym: "sameKey a b \<Longrightarrow> sameKey b a"
  by (auto simp: sameKey_def)

lemma sameKey_trans: "sameKey a b \<Longrightarrow> sameKey b c \<Longrightarrow> sameKey a c"
  by (auto simp: sameKey_def)

lemma sameKey_qty_update [simp]:
  "sameKey (a\<lparr>qty := x\<rparr>) b = sameKey a b" "sameKey a (b\<lparr>qty := x\<rparr>) = sameKey a b"
  by (simp_all add: sameKey_def)

lemma findIndex_append_hit:
  assumes "\<forall>x \<in> set xs. \<not> P x" "P y"
  shows "findIndex P (xs @ [y]) = int (length xs)"
  using assms by (induction xs) (auto simp: Let_def)

lemma addToCart_items_found:
  assumes "\<exists>it \<in> set (items (cart (safeGet e))). sameKey it new"
  shows "\<exists>i < length (items (cart (safeGet e))).
           sameKey (items (cart (safeGet e)) ! i) new
           \<and> (\<forall>j < i. \<not> sameKey (items (cart (safeGet e)) ! j) new)
           \<and> items (cart (fst (addToCart new e)))
               = (items (cart (safeGet e)))
                   [i := (items (cart (safeGet e)) ! i)
                           \<lparr>qty := qty (items (cart (safeGet e)) ! i) + qty new\<rparr>]"
proof -
  let ?its = "items (cart (safeGet e))"
  let ?idx = "findIndex (\<lambda>it. sameKey it new) ?its"
  have ge: "0 \<le> ?idx"
    using assms findIndex_neg_iff [of "\<lambda>it. sameKey it new" ?its] by fastforce
  from findIndex_first [OF ge]
  have "nat ?idx < length ?its" "sameKey (?its ! nat ?idx) new"
      "\<forall>j < nat ?idx. \<not> sameKey (?its ! j) new"
    by auto
  moreover have "items (cart (fst (addToCart new e)))
      = ?its[nat ?idx := (?its ! nat ?idx)\<lparr>qty := qty (?its ! nat ?idx) + qty new\<rparr>]"
    using ge by (simp add: addToCart_def Let_def recalc_totals)
  ultimately show ?thesis by blast
qed

lemma addToCart_items_new:
  assumes "\<forall>it \<in> set (items (cart (safeGet e))). \<not> sameKey it new"
  shows "items (cart (fst (addToCart new e)))
           = items (cart (safeGet e)) @ [new\<lparr>qty := (if qty new = 0 then 1 else qty new)\<rparr>]"
proof -
  have "findIndex (\<lambda>it. sameKey it new) (items (cart (safeGet e))) < 0"
    using assms by (simp add: findIndex_neg_iff)
  then show ?thesis
    by (simp add: addToCart_def Let_def recalc_totals)
qed

lemma addToCart_stored:
  "safeGet (snd (addToCart new (Window d))) = fst (addToCart new (Window d))"
  by (simp add: addToCart_def Let_def safeGet_safeSet)

lemma addToCart_twice:
  assumes fresh: "\<forall>it \<in> set (items (cart (safeGet (Window d)))). \<not> sameKey it a"
    and same: "sameKey a b" and nz: "qty a \<noteq> 0"
  shows "items (cart (fst (addToCart b (snd (addToCart a (Window d))))))
           = items (cart (safeGet (Window d))) @ [a\<lparr>qty := qty a + qty b\<rparr>]"
proof -
  let ?its = "items (cart (safeGet (Window d)))"
  let ?e1 = "snd (addToCart a (Window d))"
  have its1: "items (cart (safeGet ?e1)) = ?its @ [a]"
    using addToCart_items_new [OF fresh] nz by (simp add: addToCart_stored)
  have nomatch: "\<forall>it \<in> set ?its. \<not> sameKey it b"
    using fresh same sameKey_sym sameKey_trans by blast
  then have idx: "findIndex (\<lambda>it. sameKey it b) (?its @ [a]) = int (length ?its)"
    using same by (simp add: findIndex_append_hit)
  show ?thesis
    by (simp add: addToCart_def [of b] Let_def its1 idx recalc_totals)
qed

lemma cart_nonempty_Window: "items (cart (safeGet e)) \<noteq> [] \<Longrightarrow> \<exists>d. e = Window d"
  by (cases e) (simp_all add: safeGet_def emptyState_def recalc_def)

lemma addToCart_stored_found:
  assumes "\<exists>it \<in> set (items (cart (safeGet e))). sameKey it new"
  shows "safeGet (snd (addToCart new e)) = fst (addToCart new e)"
proof -
  have "items (cart (safeGet e)) \<noteq> []"
    using assms by auto
  then obtain d where "e = Window d"
    using cart_nonempty_Window by blast
  then show ?thesis
    by (simp add: addToCart_stored)
qed

text \<open>
  Claim C7. If the cart read from the storage has a line with the key of the added item
  (identifier compared as a string, SKU, colour and size), \<open>addToCart\<close> adds the item's
  quantity to the first such line, leaves every other line as it is, and adds no line;
  this holds of the state it returns and of the cart it has stored, which a later
  \<open>getCart\<close> reads back as the returned state. In a browser, adding an item whose key is
  not in the cart and then an item with the same key leaves, in the returned state and
  in the storage, the old lines followed by a single line with the sum of the two
  quantities: 2 and then 3 give one line with quantity 5.
\<close>

theorem addToCart_merges:
  "((\<exists>it \<in> set (items (cart (getCart e))). sameKey it new) \<longrightarrow>
      (\<exists>i < length (items (cart (getCart e))).
           sameKey (items (cart (getCart e)) ! i) new
           \<and> (\<forall>j < i. \<not> sameKey (items (cart (getCart e)) ! j) new)
           \<and> items (cart (fst (addToCart new e)))
               = (items (cart (getCart e)))
                   [i := (items (cart (getCart e)) ! i)
                           \<lparr>qty := qty (items (cart (getCart e)) ! i) + qty new\<rparr>]
           \<and> items (cart (getCart (snd (addToCart new e))))
               = (items (cart (getCart e)))
                   [i := (items (cart (getCart e)) ! i)
                           \<lparr>qty := qty (items (cart (getCart e)) ! i) + qty new\<rparr>])
      \<and> length (items (cart (fst (addToCart new e)))) = length (items (cart (getCart e)))
      \<and> length (items (cart (getCart (snd (addToCart new e)))))
          = length (items (cart (getCart e)))
      \<and> getCart (snd (addToCart new e)) = fst (addToCart new e))
   \<and> ((\<forall>it \<in> set (items (cart (getCart (Window d)))). \<not> sameKey it a) \<and> sameKey a b
        \<and> qty a \<noteq> 0 \<longrightarrow>
        items (cart (fst (addToCart b (snd (addToCart a (Window d))))))
          = items (cart (getCart (Window d))) @ [a\<lparr>qty := qty a + qty b\<rparr>]
        \<and> items (cart (getCart (snd (addToCart b (snd (addToCart a (Window d)))))))
          = items (cart (getCart (Window d))) @ [a\<lparr>qty := qty a + qty b\<rparr>])"
proof (intro conjI impI)
  assume "\<exists>it \<in> set (items (cart (getCart e))). sameKey it new"
  then have ex: "\<exists>it \<in> set (items (cart (safeGet e))). sameKey it new"
    by (simp add: getCart_def)
  have stored: "getCart (snd (addToCart new e)) = fst (addToCart new e)"
    using addToCart_stored_found [OF ex] by (simp add: getCart_def)
  from addToCart_items_found [OF ex]
  show "\<exists>i < length (items (cart (getCart e))).
           sameKey (items (cart (getCart e)) ! i) new
           \<and> (\<forall>j < i. \<not> sameKey (items (cart (getCart e)) ! j) new)
           \<and> items (cart (fst (addToCart new e)))
               = (items (cart (getCart e)))
                   [i := (items (cart (getCart e)) ! i)
                           \<lparr>qty := qty (items (cart (getCart e)) ! i) + qty new\<rparr>]
           \<and> items (cart (getCart (snd (addToCart new e))))
               = (items (cart (getCart e)))
                   [i := (items (cart (getCart e)) ! i)
                           \<lparr>qty := qty (items (cart (getCart e)) ! i) + qty new\<rparr>]"
    unfolding stored by (simp add: getCart_def)
  from addToCart_items_found [OF ex]
  show len: "length (items (cart (fst (addToCart new e)))) = length (items (cart (getCart e)))"
    by (auto simp: getCart_def)
  then show "length (items (cart (getCart (snd (addToCart new e)))))
          = length (items (cart (getCart e)))"
    by (simp only: stored)
  show "getCart (snd (addToCart new e)) = fst (addToCart new e)"
    by (rule stored)
next
  assume a: "(\<forall>it \<in> set (items (cart (getCart (Window d)))). \<not> sameKey it a) \<and> sameKey a b
        \<and> qty a \<noteq> 0"
  then show fst_eq: "items (cart (fst (addToCart b (snd (addToCart a (Window d))))))
          = items (cart (getCart (Window d))) @ [a\<lparr>qty := qty a + qty b\<rparr>]"
    using addToCart_twice [of d a b] by (simp add: getCart_def)
  obtain d' where "snd (addToCart a (Window d)) = Window d'"
    by (simp add: addToCart_def Let_def safeSet_def)
  then have "getCart (snd (addToCart b (snd (addToCart a (Window d)))))
      = fst (addToCart b (snd (addToCart a (Window d))))"
    by (simp add: getCart_def addToCart_stored)
  then show "items (cart (getCart (snd (addToCart b (snd (addToCart a (Window d)))))))
          = items (cart (getCart (Window d))) @ [a\<lparr>qty := qty a + qty b\<rparr>]"
    using fst_eq by simp
qed

theorem addToCart_merges_witness:
  "sameKey mugLine (mugLine\<lparr>qty := 3\<rparr>) \<and> qty mugLine \<noteq> 0
   \<and> items (cart (getCart (Window Null))) = []
   \<and> items (cart (fst (addToCart (mugLine\<lparr>qty := 3\<rparr>) (snd (addToCart mugLine (Window Null))))))
       = [mugLine\<lparr>qty := 5\<rparr>]
   \<and> items (cart (getCart (snd (addToCart (mugLine\<lparr>qty := 3\<rparr>)
         (snd (addToCart mugLine (Window Null)))))))
       = [mugLine\<lparr>qty := 5\<rparr>]
   \<and> mugLine \<in> set (items (cart (getCart (snd (addToCart mugLine (Window Null))))))
   \<and> getCart (snd (addToCart (mugLine\<lparr>qty := 3\<rparr>) (snd (addToCart mugLine (Window Null)))))
       = fst (addToCart (mugLine\<lparr>qty := 3\<rparr>) (snd (addToCart mugLine (Window Null))))
   \<and> length (items (cart (getCart (snd (addToCart (mugLine\<lparr>qty := 3\<rparr>)
         (snd (addToCart mugLine (Window Null)))))))) = 1"
proof -
  let ?b = "mugLine\<lparr>qty := 3\<rparr>"
  let ?e1 = "snd (addToCart mugLine (Window Null))"
  have empty: "items (cart (getCart (Window Null))) = []"
    by (simp add: getCart_def safeGet_def safeGet_try_def emptyState_def recalc_def)
  have same: "sameKey mugLine ?b" and nz: "qty mugLine \<noteq> 0" and q: "qty mugLine + qty ?b = 5"
    by (simp_all add: sameKey_def mugLine_def)
  have fresh: "\<forall>it \<in> set (items (cart (getCart (Window Null)))). \<not> sameKey it mugLine"
    by (simp add: empty)
  have twice: "items (cart (fst (addToCart ?b ?e1))) = [mugLine\<lparr>qty := 5\<rparr>]"
      "items (cart (getCart (snd (addToCart ?b ?e1)))) = [mugLine\<lparr>qty := 5\<rparr>]"
    using addToCart_merges [where d = Null and a = mugLine and b = ?b] fresh same nz empty q
    by simp_all
  have its1: "items (cart (getCart ?e1)) = [mugLine]"
    by (simp add: getCart_def addToCart_stored addToCart_items_new empty [unfolded getCart_def] nz)
  then have "\<exists>it \<in> set (items (cart (getCart ?e1))). sameKey it ?b"
    using same by simp
  then have "length (items (cart (getCart (snd (addToCart ?b ?e1)))))
        = length (items (cart (getCart ?e1)))"
      and stored: "getCart (snd (addToCart ?b ?e1)) = fst (addToCart ?b ?e1)"
    using addToCart_merges [where e = ?e1 and new = ?b] by blast+
  then have "length (items (cart (getCart (snd (addToCart ?b ?e1))))) = 1"
    by (simp add: its1)
  then show ?thesis
    using same nz empty twice its1 stored by simp
qed

section \<open>Properties of the tax-identifier validator\<close>

lemma Number1_digit: "isDigit c \<Longrightarrow> Number1 [c] = Some (int (digitValue c))"
  by (simp add: Number1_def digitValue_def isDigit_def of_nat_diff)

lemma calcDV_loop_Nil: "calcDV_loop [] M S = Some S"
  by (simp add: calcDV_loop.simps)

lemma calcDV_loop_snoc:
  "isDigit x \<Longrightarrow> calcDV_loop (xs @ [x]) M S
     = calcDV_loop xs (M + 1) ((S + int (digitValue x) * (9 - int (M mod 6))) mod 11)"
  by (subst calcDV_loop.simps) (simp add: sliceLast_def sliceInit_def Number1_digit)

lemma step_mod11:
  "((S + d * (9 - m)) mod 11 - w) mod 11 = (S - (d * (2 + m) + w)) mod (11::int)"
proof -
  have "((S + d * (9 - m)) mod 11 - w) mod 11 = (S + d * (9 - m) - w) mod 11"
    by (simp add: mod_diff_left_eq)
  also have "S + d * (9 - m) - w = (S - (d * (2 + m) + w)) + 11 * d"
    by (simp add: algebra_simps)
  also have "((S - (d * (2 + m) + w)) + 11 * d) mod 11 = (S - (d * (2 + m) + w)) mod 11"
    by simp
  finally show ?thesis .
qed

lemma calcDV_loop_digits:
  assumes "list_all isDigit xs" "0 \<le> S" "S < 11"
  shows "calcDV_loop (rev xs) M S = Some ((S - int (weightedSum M (map digitValue xs))) mod 11)"
  using assms
proof (induction xs arbitrary: M S)
  case Nil
  then show ?case by (simp add: calcDV_loop_Nil)
next
  case (Cons x xs)
  let ?S' = "(S + int (digitValue x) * (9 - int (M mod 6))) mod 11"
  have d: "isDigit x" "list_all isDigit xs"
    using Cons.prems(1) by simp_all
  have "calcDV_loop (rev (x # xs)) M S = calcDV_loop (rev xs) (Suc M) ?S'"
    using d(1) by (simp add: calcDV_loop_snoc)
  also have "\<dots> = Some ((?S' - int (weightedSum (Suc M) (map digitValue xs))) mod 11)"
    by (rule Cons.IH [OF d(2)]) simp_all
  also have "(?S' - int (weightedSum (Suc M) (map digitValue xs))) mod 11
      = (S - int (weightedSum M (map digitValue (x # xs)))) mod 11"
    using step_mod11 [of S "int (digitValue x)" "int (M mod 6)"
        "int (weightedSum (Suc M) (map digitValue xs))"]
    by (simp add: algebra_simps)
  finally show ?case .
qed

lemma digitChar_0: "digitChar 0 = CHR ''0''"
  unfolding digitChar_def by code_simp

lemma decimal_small: "n < 10 \<Longrightarrow> decimal n = [digitChar n]"
  by (simp add: decimal.simps)

lemma one_minus_mod11:
  fixes k :: nat
  assumes "k < 11"
  shows "(1 - int k) mod 11 = (if k = 0 then 1 else if k = 1 then 0 else 12 - int k)"
proof (cases "k \<le> 1")
  case True
  then have "k = 0 \<or> k = 1" by linarith
  then show ?thesis by auto
next
  case False
  then have b: "0 \<le> 12 - int k" "12 - int k < 11"
    using assms by linarith+
  have "(1 - int k) mod 11 = (1 - int k + 11) mod 11"
    by (simp only: mod_add_self2)
  also have "1 - int k + 11 = 12 - int k"
    by simp
  also have "(12 - int k) mod 11 = 12 - int k"
    using b by (rule mod_pos_pos_trivial)
  finally show ?thesis
    using False by simp
qed

lemma one_minus_mod11_nat: "(1 - int t) mod 11 = (if t mod 11 = 0 then 1 else if t mod 11 = 1 then 0 else 12 - int (t mod 11))"
proof -
  have "(1 - int t) mod 11 = (1 - int t mod 11) mod 11"
    by (simp only: mod_diff_right_eq)
  also have "int t mod 11 = int (t mod 11)"
    by (simp add: zmod_int)
  finally show ?thesis
    by (simp only: one_minus_mod11 [of "t mod 11"] mod_less_divisor zero_less_numeral)
qed

lemma calcDV_reference:
  assumes "list_all isDigit body"
  shows "calcDV body = Some [modulus11_reference body]"
proof -
  define t where "t = weightedSum 0 (rev (map digitValue body))"
  have "list_all isDigit (rev body)"
    using assms by (simp add: list_all_iff)
  from calcDV_loop_digits [OF this, of 1 0]
  have loop: "calcDV_loop body 0 1 = Some ((1 - int t) mod 11)"
    by (simp add: t_def rev_map)
  define k where "k = t mod 11"
  have k: "k < 11" by (simp add: k_def)
  have S: "(1 - int t) mod 11 = (if k = 0 then 1 else if k = 1 then 0 else 12 - int k)"
    unfolding k_def by (rule one_minus_mod11_nat)
  have ref: "modulus11_reference body
      = (if 11 - k = 11 then CHR ''0'' else if 11 - k = 10 then CHR ''K'' else digitChar (11 - k))"
    by (simp add: modulus11_reference_def Let_def t_def k_def)
  consider "k = 0" | "k = 1" | "2 \<le> k"
    by linarith
  then show ?thesis
  proof cases
    case 1
    then show ?thesis
      by (simp add: calcDV_def loop S ref String_of_int_def decimal_small digitChar_0)
  next
    case 2
    then show ?thesis
      by (simp add: calcDV_def loop S ref)
  next
    case 3
    then have S3: "(1 - int t) mod 11 = 12 - int k"
      using S by simp
    have nz: "12 - int k \<noteq> 0" and eq: "12 - int k - 1 = int (11 - k)"
      using 3 k by linarith+
    have small: "11 - k < 10"
      using 3 by linarith
    have "calcDV body = Some (String_of_int (12 - int k - 1))"
      using nz by (simp add: calcDV_def loop S3)
    also have "String_of_int (12 - int k - 1) = [digitChar (11 - k)]"
      unfolding eq using small by (simp add: String_of_int_def decimal_small)
    also have "digitChar (11 - k) = modulus11_reference body"
    proof -
      have "11 - k \<noteq> 11" "11 - k \<noteq> 10"
        using 3 by linarith+
      then show ?thesis
        by (simp only: ref if_False)
    qed
    finally show ?thesis .
  qed
qed

lemma rutPattern_shape:
  "rutPattern c \<longleftrightarrow> 2 \<le> length c \<and> length c \<le> 9 \<and> list_all isDigit (butlast c)
                    \<and> (isDigit (last c) \<or> last c = CHR ''K'')"
proof
  assume "rutPattern c"
  then obtain n where n: "1 \<le> n" "n \<le> 8" "length c = n + 1" "list_all isDigit (take n c)"
      "isDigit (c ! n) \<or> c ! n = CHR ''K''"
    by (auto simp: rutPattern_def)
  then have "c \<noteq> []" by auto
  then have "last c = c ! n" "butlast c = take n c"
    using n(3) by (simp_all add: last_conv_nth butlast_conv_take)
  then show "2 \<le> length c \<and> length c \<le> 9 \<and> list_all isDigit (butlast c)
                    \<and> (isDigit (last c) \<or> last c = CHR ''K'')"
    using n by simp
next
  assume a: "2 \<le> length c \<and> length c \<le> 9 \<and> list_all isDigit (butlast c)
                    \<and> (isDigit (last c) \<or> last c = CHR ''K'')"
  then have ne: "c \<noteq> []" by auto
  let ?n = "length c - 1"
  have "?n \<in> {1..8}" "length c = ?n + 1" using a by auto
  moreover have "last c = c ! ?n" "butlast c = take ?n c"
    using ne by (simp_all add: last_conv_nth butlast_conv_take)
  ultimately show "rutPattern c"
    unfolding rutPattern_def using a by metis
qed

text \<open>
  Claim C9. \<open>validateRut\<close> is a predicate on the typed text. It holds exactly when the
  normalised text (dots and hyphens removed, letters in upper case) consists of one to
  eight digits followed by a digit or \<^verbatim>\<open>K\<close>, and that last character is the check digit
  that \<open>calcDV\<close> computes from the digits before it. On a body of digits \<open>calcDV\<close>
  returns the modulus-11 check digit of the reference algorithm. The print button is
  disabled exactly for a text that is not empty and not valid, and the form stores
  whatever is typed.
\<close>

theorem validateRut_spec:
  "(validateRut r \<longleftrightarrow>
      2 \<le> length (cleanRut r) \<and> length (cleanRut r) \<le> 9
      \<and> list_all isDigit (butlast (cleanRut r))
      \<and> (isDigit (last (cleanRut r)) \<or> last (cleanRut r) = CHR ''K'')
      \<and> calcDV (butlast (cleanRut r)) = Some [last (cleanRut r)])
   \<and> cleanRut r = map upperChar (filter (\<lambda>c. c \<noteq> CHR ''.'' \<and> c \<noteq> CHR ''-'') r)
   \<and> (list_all isDigit body \<longrightarrow> calcDV body = Some [modulus11_reference body])
   \<and> (printDisabled f \<longleftrightarrow> rut f \<noteq> [] \<and> \<not> validateRut (rut f))
   \<and> rut (setRut v f) = v"
proof (intro conjI impI)
  show "validateRut r \<longleftrightarrow>
      2 \<le> length (cleanRut r) \<and> length (cleanRut r) \<le> 9
      \<and> list_all isDigit (butlast (cleanRut r))
      \<and> (isDigit (last (cleanRut r)) \<or> last (cleanRut r) = CHR ''K'')
      \<and> calcDV (butlast (cleanRut r)) = Some [last (cleanRut r)]"
    by (auto simp: validateRut_def Let_def rutPattern_shape sliceInit_def sliceLast_def)
  show "cleanRut r = map upperChar (filter (\<lambda>c. c \<noteq> CHR ''.'' \<and> c \<noteq> CHR ''-'') r)"
    by (simp add: cleanRut_def toUpperCase_def conj_commute)
  show "calcDV body = Some [modulus11_reference body]" if "list_all isDigit body"
    using that by (rule calcDV_reference)
  show "printDisabled f \<longleftrightarrow> rut f \<noteq> [] \<and> \<not> validateRut (rut f)"
    by (auto simp: printDisabled_def rutOk_def)
  show "rut (setRut v f) = v"
    by (simp add: setRut_def)
qed


lemma rut_example_clean: "cleanRut ''12.345.678-5'' = ''123456785''"
  by code_simp

lemma rut_example_digits: "list_all isDigit ''12345678''"
  by code_simp

lemma rut_example_reference: "modulus11_reference ''12345678'' = CHR ''5''"
  by code_simp

lemma rut_example_invalid: "\<not> validateRut ''12.345.678-9''"
  by code_simp

theorem validateRut_spec_witness:
  "list_all isDigit ''12345678''
   \<and> calcDV ''12345678'' = Some ''5''
   \<and> cleanRut ''12.345.678-5'' = ''123456785''
   \<and> validateRut ''12.345.678-5''
   \<and> rut invalidRutForm = ''12.345.678-9''
   \<and> printDisabled invalidRutForm"
proof -
  have dv: "calcDV ''12345678'' = Some ''5''"
    using validateRut_spec [where body = "''12345678''"] rut_example_digits
    by (simp add: rut_example_reference)
  have shape: "2 \<le> length ''123456785''" "length ''123456785'' \<le> 9"
      "butlast ''123456785'' = ''12345678''" "last ''123456785'' = CHR ''5''"
    by simp_all
  have "isDigit CHR ''5''"
    by code_simp
  then have valid: "validateRut ''12.345.678-5''"
    using validateRut_spec [where r = "''12.345.678-5''"] dv rut_example_digits
    by (simp only: rut_example_clean shape) simp
  have r: "rut invalidRutForm = ''12.345.678-9''"
    by (simp add: invalidRutForm_def)
  then have "printDisabled invalidRutForm"
    using validateRut_spec [where f = invalidRutForm] rut_example_invalid by simp
  then show ?thesis
    using dv valid r rut_example_digits rut_example_clean by blast
qed

end
